theory Spec2Isabelle
  imports Complex_Main "HOL-Library.Multiset"
begin

section \<open>JavaScript values\<close>

text \<open>
  The stream delivers parsed JSON. A number is kept as the value of the parsed double
  (only the test against zero is ever used on it). An object is the list of its own
  properties in insertion order; the keys of a parsed object are distinct.
  A value of type \<open>json option\<close> is a JavaScript value that may be \<open>undefined\<close>
  (\<open>None\<close>).
\<close>

datatype json =
    JNull
  | JBool bool
  | JNum rat
  | JStr string
  | JArr "json list"
  | JObj "(string \<times> json) list"

text \<open>JavaScript truthiness (\<open>ToBoolean\<close>).\<close>

fun truthy :: "json option \<Rightarrow> bool" where
  "truthy None = False"
| "truthy (Some JNull) = False"
| "truthy (Some (JBool b)) = b"
| "truthy (Some (JNum n)) = (n \<noteq> 0)"
| "truthy (Some (JStr s)) = (s \<noteq> [])"
| "truthy (Some (JArr xs)) = True"
| "truthy (Some (JObj kvs)) = True"

text \<open>\<open>typeof v === 'object'\<close>: true of \<open>null\<close>, arrays and objects.\<close>

fun typeofObject :: "json \<Rightarrow> bool" where
  "typeofObject JNull = True"
| "typeofObject (JArr xs) = True"
| "typeofObject (JObj kvs) = True"
| "typeofObject v = False"

text \<open>\<open>typeof v === 'string'\<close> on a value that may be \<open>undefined\<close>.\<close>

fun typeofString :: "json option \<Rightarrow> bool" where
  "typeofString (Some (JStr s)) = True"
| "typeofString v = False"

text \<open>
  What is thrown while the component renders: a TypeError of the language, or the error
  with which React refuses a plain object as a child ("Objects are not valid as a React
  child").
\<close>

datatype jsError = TypeError | InvalidChild

text \<open>
  The property read \<open>v.k\<close>. Reading a property of \<open>null\<close> throws a TypeError. The
  program reads only the names \<open>type\<close>, \<open>data\<close>, \<open>url\<close>, \<open>title\<close>, \<open>stdout\<close>,
  \<open>stderr\<close>, \<open>error\<close>, \<open>detail\<close> and \<open>mermaid_string\<close> this way; none of them is
  defined by a built-in prototype, so the read finds an own property of an object or
  \<open>undefined\<close>.
\<close>

fun ownProp :: "json \<Rightarrow> string \<Rightarrow> json option" where
  "ownProp (JObj kvs) k = map_of kvs k"
| "ownProp v k = None"

definition getProp :: "json \<Rightarrow> string \<Rightarrow> jsError + json option" where
  "getProp v k = (if v = JNull then Inl TypeError else Inr (ownProp v k))"

section \<open>Event classifier (\<open>onUpdateEvent\<close> in App)\<close>

text \<open>
  The strings that the program receives (node names, payload strings, section names)
  are strings over the code units below 256. A string that it computes with
  \<open>toUpperCase\<close> can leave that range, so a title is a list of UTF-16 code units.
\<close>

type_synonym utf16 = "nat list"

definition codeUnits :: "string \<Rightarrow> utf16" where
  "codeUnits s = map of_char s"

record ProcessedEvent =
  title :: utf16
  data :: "json option"
  sectionType :: string
  isSources :: bool

text \<open>
  \<open>String.prototype.toUpperCase\<close> on one character, with the full case mapping of
  Unicode on the code units below 256: the letters \<open>a\<close>..\<open>z\<close> and U+00E0..U+00FE
  (but for the division sign U+00F7) move down by 32; the micro sign U+00B5 becomes
  U+039C; the sharp s U+00DF becomes the two letters SS; U+00FF becomes U+0178; every
  other character is returned as it is.
\<close>

definition toUpperCase :: "char \<Rightarrow> utf16" where
  "toUpperCase c =
     (let n = (of_char c :: nat)
      in if 97 \<le> n \<and> n \<le> 122 then [n - 32]
         else if n = 181 then [924]
         else if n = 223 then [83, 83]
         else if 224 \<le> n \<and> n \<le> 254 \<and> n \<noteq> 247 then [n - 32]
         else if n = 255 then [376]
         else [n])"

text \<open>
  The default title: \<open>nodeName.replace(/_/g, ' ')\<close>, then
  \<open>title.charAt(0).toUpperCase() + title.slice(1)\<close>.
\<close>

definition defaultTitle :: "string \<Rightarrow> utf16" where
  "defaultTitle nodeName =
     (let t = map (\<lambda>c. if c = CHR ''_'' then CHR '' '' else c) nodeName
      in case t of [] \<Rightarrow> [] | c # cs \<Rightarrow> toUpperCase c @ codeUnits cs)"

text \<open>The guard of the loop body: \<open>nodeEvent && typeof nodeEvent === 'object' && nodeEvent.type\<close>.\<close>

definition hasType :: "json \<Rightarrow> bool" where
  "hasType nodeEvent \<longleftrightarrow>
     truthy (Some nodeEvent) \<and> typeofObject nodeEvent \<and> truthy (ownProp nodeEvent ''type'')"

text \<open>
  The body of the loop under the guard: the entry pushed for one node, and whether the
  body sets \<open>hasFinalizeEventOccurredRef.current\<close>.
\<close>

definition classify :: "string \<Rightarrow> json \<Rightarrow> ProcessedEvent \<times> bool" where
  "classify nodeName nodeEvent =
     (let ty = ownProp nodeEvent ''type'';
          d = ownProp nodeEvent ''data'';
          dflt = defaultTitle nodeName
      in if nodeName = ''generate_query'' then
           (\<lparr>title = codeUnits ''Generating Search Queries'', data = d,
             sectionType = ''Querying'', isSources = False\<rparr>, False)
         else if nodeName = ''web_research'' then
           (if ty = Some (JStr ''status'') then
              (\<lparr>title = codeUnits ''Web Research Status'', data = d,
                sectionType = ''Searching'', isSources = False\<rparr>, False)
            else if ty = Some (JStr ''sources'') then
              (\<lparr>title = codeUnits ''Found Sources'', data = d,
                sectionType = ''Searching'', isSources = True\<rparr>, False)
            else
              (\<lparr>title = dflt, data = d, sectionType = ''Searching'', isSources = False\<rparr>, False))
         else if nodeName = ''reflection'' then
           (if ty = Some (JStr ''status'') then
              (\<lparr>title = codeUnits ''Reflection Status'', data = d,
                sectionType = ''Planning'', isSources = False\<rparr>, False)
            else if ty = Some (JStr ''plan'') then
              (\<lparr>title = codeUnits ''Reflection Plan'', data = d,
                sectionType = ''Planning'', isSources = False\<rparr>, False)
            else
              (\<lparr>title = dflt, data = d, sectionType = ''Planning'', isSources = False\<rparr>, False))
         else if nodeName = ''code_execution'' then
           (if ty = Some (JStr ''status'') then
              (\<lparr>title = codeUnits ''Code Execution Status'', data = d,
                sectionType = ''Coding'', isSources = False\<rparr>, False)
            else if ty = Some (JStr ''output'') then
              (\<lparr>title = codeUnits ''Code Execution Output'', data = d,
                sectionType = ''Coding'', isSources = False\<rparr>, False)
            else
              (\<lparr>title = dflt, data = d, sectionType = ''Coding'', isSources = False\<rparr>, False))
         else if nodeName = ''finalize_answer'' then
           (\<lparr>title = codeUnits ''Finalizing Answer'', data = d,
             sectionType = ''Finalizing'', isSources = False\<rparr>, True)
         else
           (\<lparr>title = dflt, data = d, sectionType = ''General'', isSources = False\<rparr>, False))"

text \<open>
  The loop \<open>for (const nodeName in event)\<close>: a tick is the list of its node names with
  their payloads, in enumeration order. The state of the loop is the array
  \<open>newProcessedEvents\<close> and the flag \<open>hasFinalizeEventOccurredRef.current\<close>.
\<close>

fun processNodes ::
  "(string \<times> json) list \<Rightarrow> ProcessedEvent list \<times> bool \<Rightarrow> ProcessedEvent list \<times> bool" where
  "processNodes [] st = st"
| "processNodes ((nodeName, nodeEvent) # rest) (newProcessedEvents, fin) =
     (if hasType nodeEvent then
        processNodes rest
          (newProcessedEvents @ [fst (classify nodeName nodeEvent)],
           fin \<or> snd (classify nodeName nodeEvent))
      else processNodes rest (newProcessedEvents, fin))"

text \<open>The section names that \<open>classify\<close> assigns.\<close>

definition classifierSections :: "string list" where
  "classifierSections =
     [''Querying'', ''Searching'', ''Planning'', ''Coding'', ''Finalizing'', ''General'']"

section \<open>Application state (App)\<close>

text \<open>A chat message: its \<open>type\<close>, its \<open>content\<close> and its optional \<open>id\<close>.\<close>

record Message =
  msgType :: string
  msgContent :: json
  msgId :: "string option"

text \<open>
  The state of App: the two \<open>useState\<close> cells, the ref, and what \<open>useStream\<close> exposes
  (\<open>thread.messages\<close>, \<open>thread.isLoading\<close>). The state arrays are never mutated in
  place: every update builds a new array by spreading, so a list value models each of
  them. \<open>historicalActivities\<close> is written only with computed keys and is modelled by
  its own properties.
\<close>

record AppState =
  processedEventsTimeline :: "ProcessedEvent list"
  historicalActivities :: "string \<rightharpoonup> ProcessedEvent list"
  hasFinalizeEventOccurred :: bool
  messages :: "Message list"
  isLoading :: bool

definition onUpdateEvent :: "(string \<times> json) list \<Rightarrow> AppState \<Rightarrow> AppState" where
  "onUpdateEvent event s =
     (let (newProcessedEvents, fin) = processNodes event ([], hasFinalizeEventOccurred s)
      in s\<lparr>processedEventsTimeline :=
              (if newProcessedEvents \<noteq> []
               then processedEventsTimeline s @ newProcessedEvents
               else processedEventsTimeline s),
            hasFinalizeEventOccurred := fin\<rparr>)"

text \<open>The state in which App mounts.\<close>

definition initialState :: AppState where
  "initialState =
     \<lparr>processedEventsTimeline = [], historicalActivities = Map.empty,
      hasFinalizeEventOccurred = False, messages = [], isLoading = False\<rparr>"

section \<open>Plain objects used as dictionaries\<close>

text \<open>
  The components keep dictionaries in plain objects. A read \<open>obj[k]\<close> finds an own
  property, or else a member inherited from \<open>Object.prototype\<close> (a function, or the
  prototype itself for \<open>__proto__\<close>: a truthy value that is neither \<open>undefined\<close> nor an
  array), or else \<open>undefined\<close>.
\<close>

definition objectPrototypeKeys :: "string list" where
  "objectPrototypeKeys =
     [''constructor'', ''__defineGetter__'', ''__defineSetter__'', ''hasOwnProperty'',
      ''__lookupGetter__'', ''__lookupSetter__'', ''isPrototypeOf'',
      ''propertyIsEnumerable'', ''toString'', ''valueOf'', ''__proto__'',
      ''toLocaleString'']"

datatype 'a slot = Own 'a | Inherited | Absent

definition lookupSlot :: "(string \<rightharpoonup> 'a) \<Rightarrow> string \<Rightarrow> 'a slot" where
  "lookupSlot own k =
     (case own k of
        Some v \<Rightarrow> Own v
      | None \<Rightarrow> if k \<in> set objectPrototypeKeys then Inherited else Absent)"

text \<open>
  \<open>Object.keys\<close> and \<open>Object.entries\<close> list the own properties whose key is an array
  index (a canonical decimal numeral below \<open>2^32 - 1\<close>) first, in ascending numeric
  order, and then the other keys in insertion order.
\<close>

definition isDigit :: "char \<Rightarrow> bool" where
  "isDigit c \<longleftrightarrow> 48 \<le> (of_char c :: nat) \<and> (of_char c :: nat) \<le> 57"

definition numVal :: "string \<Rightarrow> nat" where
  "numVal s = foldl (\<lambda>n c. 10 * n + (of_char c - 48)) 0 s"

definition isArrayIndex :: "string \<Rightarrow> bool" where
  "isArrayIndex s \<longleftrightarrow>
     s \<noteq> [] \<and> list_all isDigit s \<and> (length s = 1 \<or> hd s \<noteq> CHR ''0'')
     \<and> numVal s < 4294967295"

definition objectEntries :: "(string \<times> 'a) list \<Rightarrow> (string \<times> 'a) list" where
  "objectEntries obj =
     sort_key (\<lambda>(k, v). numVal k) (filter (\<lambda>(k, v). isArrayIndex k) obj)
     @ filter (\<lambda>(k, v). \<not> isArrayIndex k) obj"

definition objectKeys :: "(string \<times> 'a) list \<Rightarrow> string list" where
  "objectKeys obj = map fst (objectEntries obj)"

section \<open>Grouped view (\<open>groupedEvents\<close> in ActivityTimeline)\<close>

text \<open>\<open>acc[sectionType].push(event)\<close> on the own array stored under the key.\<close>

definition pushTo ::
  "string \<Rightarrow> ProcessedEvent \<Rightarrow> (string \<times> ProcessedEvent list) list
     \<Rightarrow> (string \<times> ProcessedEvent list) list" where
  "pushTo k event acc =
     map (\<lambda>(k', es). if k' = k then (k', es @ [event]) else (k', es)) acc"

text \<open>
  The callback of \<open>reduce\<close>. The accumulator is the object's own properties in insertion
  order. When \<open>acc[sectionType]\<close> is inherited, it is truthy, no array is created, and
  the call of its missing \<open>push\<close> throws a TypeError.
\<close>

definition groupStep ::
  "(string \<times> ProcessedEvent list) list \<Rightarrow> ProcessedEvent
     \<Rightarrow> jsError + (string \<times> ProcessedEvent list) list" where
  "groupStep acc event =
     (let k = sectionType event
      in case lookupSlot (map_of acc) k of
           Own es \<Rightarrow> Inr (pushTo k event acc)
         | Inherited \<Rightarrow> Inl TypeError
         | Absent \<Rightarrow> Inr (pushTo k event (acc @ [(k, [])])))"

fun reduceGroups ::
  "ProcessedEvent list \<Rightarrow> (string \<times> ProcessedEvent list) list
     \<Rightarrow> jsError + (string \<times> ProcessedEvent list) list" where
  "reduceGroups [] acc = Inr acc"
| "reduceGroups (event # rest) acc =
     (case groupStep acc event of
        Inl err \<Rightarrow> Inl err
      | Inr acc' \<Rightarrow> reduceGroups rest acc')"

definition groupedEvents ::
  "ProcessedEvent list \<Rightarrow> jsError + (string \<times> ProcessedEvent list) list" where
  "groupedEvents processedEvents = reduceGroups processedEvents []"

text \<open>
  The specification's side of the grouping: \<open>firstSeen\<close> lists the elements of a list
  in the order of their first occurrence, and \<open>partitionBy\<close> is the partition the
  specification describes, with the categories in first-seen order and under each
  category the entries of that category in timeline order.
\<close>

fun firstSeen :: "'a list \<Rightarrow> 'a list" where
  "firstSeen [] = []"
| "firstSeen (x # xs) = x # filter (\<lambda>y. y \<noteq> x) (firstSeen xs)"

definition partitionBy :: "ProcessedEvent list \<Rightarrow> (string \<times> ProcessedEvent list) list" where
  "partitionBy timeline =
     map (\<lambda>c. (c, filter (\<lambda>e. sectionType e = c) timeline))
       (firstSeen (map sectionType timeline))"

section \<open>Expand state (\<open>expandedSections\<close> in ActivityTimeline)\<close>

text \<open>
  \<open>expandedSections\<close> is written only with computed keys, so it is modelled by its own
  properties; reads go through \<open>lookupSlot\<close>.

  \<open>toggleSection\<close>: \<open>{...prev, [sectionType]: !prev[sectionType]}\<close>.
\<close>

definition toggleSection :: "string \<Rightarrow> (string \<rightharpoonup> bool) \<Rightarrow> (string \<rightharpoonup> bool)" where
  "toggleSection k prev =
     prev(k \<mapsto> (case lookupSlot prev k of
                    Own b \<Rightarrow> \<not> b
                  | Inherited \<Rightarrow> False
                  | Absent \<Rightarrow> True))"

text \<open>What the renderer reads: the truthiness of \<open>expandedSections[sectionType]\<close>.\<close>

definition isExpanded :: "(string \<rightharpoonup> bool) \<Rightarrow> string \<Rightarrow> bool" where
  "isExpanded expandedSections k =
     (case lookupSlot expandedSections k of
        Own b \<Rightarrow> b
      | Inherited \<Rightarrow> True
      | Absent \<Rightarrow> False)"

text \<open>
  The second \<open>useMemo\<close>, run while rendering: for each key of the grouped view, in the
  order of \<open>Object.keys\<close>, the test \<open>expandedSections[sectionType] === undefined\<close> reads
  the state of this render, and the queued update
  \<open>prev => ({...prev, [sectionType]: true})\<close> is applied to the state in turn.
\<close>

definition autoExpand :: "string list \<Rightarrow> (string \<rightharpoonup> bool) \<Rightarrow> (string \<rightharpoonup> bool)" where
  "autoExpand keys expandedSections =
     foldl (\<lambda>prev k. if lookupSlot expandedSections k = Absent then prev(k \<mapsto> True) else prev)
       expandedSections keys"

text \<open>
  One render of ActivityTimeline as far as the expand state goes: the grouped view is
  computed from the events passed in, then the new sections are expanded.
\<close>

definition readPath ::
  "ProcessedEvent list \<Rightarrow> (string \<rightharpoonup> bool) \<Rightarrow> jsError + (string \<rightharpoonup> bool)" where
  "readPath processedEvents expandedSections =
     (case groupedEvents processedEvents of
        Inl err \<Rightarrow> Inl err
      | Inr g \<Rightarrow> Inr (autoExpand (objectKeys g) expandedSections))"

text \<open>What happens to the expand state: a render with some events, or a click on a header.\<close>

datatype uiAction = Render "ProcessedEvent list" | Toggle string

fun uiRun :: "uiAction list \<Rightarrow> (string \<rightharpoonup> bool) \<Rightarrow> jsError + (string \<rightharpoonup> bool)" where
  "uiRun [] expandedSections = Inr expandedSections"
| "uiRun (Render processedEvents # rest) expandedSections =
     (case readPath processedEvents expandedSections of
        Inl err \<Rightarrow> Inl err
      | Inr expandedSections' \<Rightarrow> uiRun rest expandedSections')"
| "uiRun (Toggle k # rest) expandedSections = uiRun rest (toggleSection k expandedSections)"

section \<open>Archival and submission (App)\<close>

text \<open>
  The effect that archives the live timeline. It runs after a render in which
  \<open>thread.messages\<close>, \<open>thread.isLoading\<close> or \<open>processedEventsTimeline\<close> changed, and is
  modelled as one step on the committed state. The archive stores a fresh copy
  \<open>[...processedEventsTimeline]\<close> under the computed key \<open>lastMessage.id\<close>. The flag is
  reset at the end of the outer \<open>if\<close>, outside the inner one.
\<close>

definition archiveEffect :: "AppState \<Rightarrow> AppState" where
  "archiveEffect s =
     (if hasFinalizeEventOccurred s \<and> \<not> isLoading s \<and> length (messages s) > 0 then
        (let lastMessage = last (messages s);
             s' = (case msgId lastMessage of
                     Some i \<Rightarrow>
                       if msgType lastMessage = ''ai'' \<and> i \<noteq> [] then
                         s\<lparr>historicalActivities :=
                             (historicalActivities s)(i \<mapsto> processedEventsTimeline s)\<rparr>
                       else s
                   | None \<Rightarrow> s)
         in s'\<lparr>hasFinalizeEventOccurred := False\<rparr>)
      else s)"

text \<open>
  \<open>String.prototype.trim\<close>: white space and line terminators among the characters
  below 256.
\<close>

definition isWhiteSpace :: "char \<Rightarrow> bool" where
  "isWhiteSpace c \<longleftrightarrow> (of_char c :: nat) \<in> {9, 10, 11, 12, 13, 32, 160}"

definition trim :: "string \<Rightarrow> string" where
  "trim s = rev (dropWhile isWhiteSpace (rev (dropWhile isWhiteSpace s)))"

text \<open>The decimal numeral of a number, as \<open>toString\<close> and template literals print it.\<close>

fun decimal :: "nat \<Rightarrow> string" where
  "decimal n =
     (if n < 10 then [char_of (48 + n)]
      else decimal (n div 10) @ [char_of (48 + n mod 10)])"

declare decimal.simps [simp del]

text \<open>The \<open>switch (effort)\<close>: \<open>initial_search_query_count\<close> and \<open>max_research_loops\<close>.\<close>

definition effortLimits :: "string \<Rightarrow> nat \<times> nat" where
  "effortLimits effort =
     (if effort = ''low'' then (1, 1)
      else if effort = ''medium'' then (3, 3)
      else if effort = ''high'' then (5, 10)
      else (0, 0))"

text \<open>The argument of \<open>thread.submit\<close>.\<close>

record RunRequest =
  reqMessages :: "Message list"
  initial_search_query_count :: nat
  max_research_loops :: nat
  reasoning_model :: string
  reqEffort :: string

text \<open>
  \<open>handleSubmit\<close>. The clock \<open>Date.now()\<close> is the argument \<open>now\<close>. The result is the new
  state of App and the request handed to \<open>thread.submit\<close>, if any.
\<close>

definition handleSubmit ::
  "string \<Rightarrow> string \<Rightarrow> string \<Rightarrow> nat \<Rightarrow> AppState \<Rightarrow> AppState \<times> RunRequest option" where
  "handleSubmit submittedInputValue effort model now s =
     (if trim submittedInputValue = [] then (s, None)
      else
        (s\<lparr>processedEventsTimeline := [], hasFinalizeEventOccurred := False\<rparr>,
         Some \<lparr>reqMessages =
                  messages s
                  @ [\<lparr>msgType = ''human'', msgContent = JStr submittedInputValue,
                       msgId = Some (decimal now)\<rparr>],
                initial_search_query_count = fst (effortLimits effort),
                max_research_loops = snd (effortLimits effort),
                reasoning_model = model,
                reqEffort = effort\<rparr>))"

text \<open>
  What changes the live timeline: a tick appended by \<open>onUpdateEvent\<close>, and a submission.
\<close>

datatype appAction = Tick "(string \<times> json) list" | Submit string string string nat

fun appStep :: "appAction \<Rightarrow> AppState \<Rightarrow> AppState" where
  "appStep (Tick event) s = onUpdateEvent event s"
| "appStep (Submit submittedInputValue effort model now) s =
     fst (handleSubmit submittedInputValue effort model now s)"

definition appRun :: "appAction list \<Rightarrow> AppState \<Rightarrow> AppState" where
  "appRun acts s = foldl (\<lambda>s' a. appStep a s') s acts"

section \<open>Section renderer (ActivityTimeline)\<close>

text \<open>
  What the JSX below an entry's title evaluates to: a list of children. A child is one
  of the elements the source writes (the link, the paragraph, a labelled block, the
  dump), or the bare value that a short-circuited \<open>v && <element>\<close> leaves behind.
  \<open>JSON.stringify\<close> is not unfolded: the dump keeps the value it prints.
\<close>

datatype node =
    Anchor json json
  | Paragraph string
  | Pre string json
  | Dump "json option"
  | Value "json option"

text \<open>\<open>v && <pre>LABEL: {v}</pre>\<close>.\<close>

definition labelled :: "string \<Rightarrow> json option \<Rightarrow> node" where
  "labelled label v =
     (case v of
        Some j \<Rightarrow> if truthy (Some j) then Pre label j else Value (Some j)
      | None \<Rightarrow> Value None)"

text \<open>
  The callback of \<open>event.data.map\<close> on an element that is not \<open>null\<close>:
  \<open>source.url && <a href={source.url}>{source.title || source.url}</a>\<close>.
\<close>

definition sourceNode :: "json \<Rightarrow> node" where
  "sourceNode source =
     (case ownProp source ''url'' of
        Some url \<Rightarrow>
          if truthy (Some url) then
            Anchor url
              (case ownProp source ''title'' of
                 Some t \<Rightarrow> if truthy (Some t) then t else url
               | None \<Rightarrow> url)
          else Value (Some url)
      | None \<Rightarrow> Value None)"

text \<open>On a \<open>null\<close> element the read \<open>source.url\<close> throws.\<close>

definition renderSource :: "json \<Rightarrow> jsError + node" where
  "renderSource source =
     (case getProp source ''url'' of
        Inl err \<Rightarrow> Inl err
      | Inr url \<Rightarrow> Inr (sourceNode source))"

fun renderSources :: "json list \<Rightarrow> jsError + node list" where
  "renderSources [] = Inr []"
| "renderSources (source # rest) =
     (case renderSource source of
        Inl err \<Rightarrow> Inl err
      | Inr n \<Rightarrow>
          (case renderSources rest of
             Inl err \<Rightarrow> Inl err
           | Inr ns \<Rightarrow> Inr (n # ns)))"

text \<open>\<open>Array.isArray\<close>, and the parts of a value that the branches use once they have tested it.\<close>

fun isArray :: "json option \<Rightarrow> bool" where
  "isArray (Some (JArr xs)) = True"
| "isArray v = False"

fun elements :: "json option \<Rightarrow> json list" where
  "elements (Some (JArr xs)) = xs"
| "elements v = []"

fun stringOf :: "json option \<Rightarrow> string" where
  "stringOf (Some (JStr s)) = s"
| "stringOf v = []"

text \<open>\<open>event.data.k\<close>, read after \<open>event.data\<close> has been tested to be truthy.\<close>

definition field :: "json option \<Rightarrow> string \<Rightarrow> json option" where
  "field d k = (case d of Some v \<Rightarrow> ownProp v k | None \<Rightarrow> None)"

text \<open>The conditional chain that renders \<open>event.data\<close>.\<close>

definition renderData :: "ProcessedEvent \<Rightarrow> jsError + node list" where
  "renderData event =
     (let d = data event
      in if isSources event \<and> isArray d then renderSources (elements d)
         else if typeofString d then Inr [Paragraph (stringOf d)]
         else if truthy d
                 \<and> (typeofString (field d ''stdout'') \<or> typeofString (field d ''stderr'')
                      \<or> typeofString (field d ''error''))
         then Inr [labelled ''STDOUT: '' (field d ''stdout''),
                   labelled ''STDERR: '' (field d ''stderr''),
                   labelled ''ERROR: '' (field d ''error'')]
         else Inr [Dump d])"

section \<open>What React shows for the rendered children\<close>

text \<open>
  React shows a string or a number child as text, and nothing for \<open>true\<close>, \<open>false\<close>,
  \<open>null\<close>, \<open>undefined\<close> and the empty string; it shows the elements of an array child
  one after the other; it throws on a plain object. \<open>childAtoms\<close> lists the strings and
  numbers that a child value contributes as text.
\<close>

fun collect :: "(jsError + 'a list) list \<Rightarrow> jsError + 'a list" where
  "collect [] = Inr []"
| "collect (r # rs) =
     (case r of
        Inl err \<Rightarrow> Inl err
      | Inr xs \<Rightarrow>
          (case collect rs of
             Inl err \<Rightarrow> Inl err
           | Inr ys \<Rightarrow> Inr (xs @ ys)))"

fun childAtoms :: "json \<Rightarrow> jsError + json list" where
  "childAtoms JNull = Inr []"
| "childAtoms (JBool b) = Inr []"
| "childAtoms (JNum n) = Inr [JNum n]"
| "childAtoms (JStr s) = Inr (if s = [] then [] else [JStr s])"
| "childAtoms (JArr xs) = collect (map childAtoms xs)"
| "childAtoms (JObj kvs) = Inl InvalidChild"

text \<open>
  What is shown below the title: a link with its target and the text of its label, the
  paragraph, a block with its label and the text after it, the dump, or a bare text.
\<close>

datatype shown =
    Link json "json list"
  | Preformatted string
  | Block string "json list"
  | Dumped "json option"
  | Text json

fun mountNode :: "node \<Rightarrow> jsError + shown list" where
  "mountNode (Anchor href label) =
     (case childAtoms label of
        Inl err \<Rightarrow> Inl err
      | Inr atoms \<Rightarrow> Inr [Link href atoms])"
| "mountNode (Paragraph s) = Inr [Preformatted s]"
| "mountNode (Pre label v) =
     (case childAtoms v of
        Inl err \<Rightarrow> Inl err
      | Inr atoms \<Rightarrow> Inr [Block label atoms])"
| "mountNode (Dump d) = Inr [Dumped d]"
| "mountNode (Value None) = Inr []"
| "mountNode (Value (Some v)) =
     (case childAtoms v of
        Inl err \<Rightarrow> Inl err
      | Inr atoms \<Rightarrow> Inr (map Text atoms))"

definition mount :: "node list \<Rightarrow> jsError + shown list" where
  "mount ns = collect (map mountNode ns)"

text \<open>What the component shows for \<open>event.data\<close>: the JSX is evaluated, then mounted.\<close>

definition showData :: "ProcessedEvent \<Rightarrow> jsError + shown list" where
  "showData event =
     (case renderData event of
        Inl err \<Rightarrow> Inl err
      | Inr ns \<Rightarrow> mount ns)"






section \<open>Mind-map fetch (MindMapModal)\<close>

text \<open>The three \<open>useState\<close> cells of the modal.\<close>

record MindMapState =
  mmIsLoading :: bool
  mmError :: "string option"
  rawMermaid :: json





text \<open>The \<open>catch\<close> handler followed by the \<open>finally\<close> handler.\<close>

definition caught :: "string \<Rightarrow> MindMapState \<Rightarrow> MindMapState" where
  "caught message st =
     st\<lparr>mmError := Some (if message \<noteq> [] then message else ''Could not load mind map data.''),
        rawMermaid := JStr [],
        mmIsLoading := False\<rparr>"





section \<open>Example run\<close>

text \<open>
  A run used to instantiate the theorems: a query tick, then the finalize tick, after
  which the stream stops with a given message list.
\<close>

definition queryTick :: "(string \<times> json) list" where
  "queryTick = [(''generate_query'', JObj [(''type'', JStr ''status''), (''data'', JStr ''q'')])]"

definition finalizeTick :: "(string \<times> json) list" where
  "finalizeTick =
     [(''finalize_answer'', JObj [(''type'', JStr ''status''), (''data'', JStr ''done'')])]"

definition humanMessage :: Message where
  "humanMessage = \<lparr>msgType = ''human'', msgContent = JStr ''question'', msgId = Some ''7''\<rparr>"

definition aiMessage :: Message where
  "aiMessage = \<lparr>msgType = ''ai'', msgContent = JStr ''answer'', msgId = Some ''42''\<rparr>"

definition runStopped :: "Message list \<Rightarrow> AppState" where
  "runStopped ms =
     (appRun [Tick queryTick, Tick finalizeTick] initialState)\<lparr>messages := ms, isLoading := False\<rparr>"




section \<open>Properties of the event classifier\<close>

lemma toUpperCase_table:
  "toUpperCase c =
     (if (97 \<le> (of_char c :: nat) \<and> (of_char c :: nat) \<le> 122)
         \<or> (224 \<le> (of_char c :: nat) \<and> (of_char c :: nat) \<le> 246)
         \<or> (248 \<le> (of_char c :: nat) \<and> (of_char c :: nat) \<le> 254)
      then [of_char c - 32]
      else if (of_char c :: nat) = 181 then [924]
      else if (of_char c :: nat) = 223 then [83, 83]
      else if (of_char c :: nat) = 255 then [376]
      else [of_char c])"
  unfolding toUpperCase_def Let_def by (simp; arith)

lemma toUpperCase_examples:
  "toUpperCase CHR ''m'' = [77]" "toUpperCase (CHR 0xE9) = [201]"
  "toUpperCase (CHR 0xDF) = [83, 83]" "toUpperCase (CHR 0xB5) = [924]"
  "toUpperCase (CHR 0xFF) = [376]"
  by (simp_all add: toUpperCase_def)

lemma defaultTitle_humanized:
  "defaultTitle [] = []"
  "defaultTitle (c # cs) =
     toUpperCase (if c = CHR ''_'' then CHR '' '' else c)
     @ map (\<lambda>d. of_char (if d = CHR ''_'' then CHR '' '' else d)) cs"
  by (simp_all add: defaultTitle_def codeUnits_def comp_def)

lemma processNodes_append:
  "processNodes event (acc, fin) =
     (acc @ map (\<lambda>(n, e). fst (classify n e)) (filter (\<lambda>(n, e). hasType e) event),
      fin \<or> (\<exists>(n, e) \<in> set event. hasType e \<and> snd (classify n e)))"
  by (induction event arbitrary: acc fin) auto

lemma classify_flag: "snd (classify nodeName nodeEvent) \<longleftrightarrow> nodeName = ''finalize_answer''"
  by (simp add: classify_def Let_def)

lemma classify_data: "data (fst (classify nodeName nodeEvent)) = ownProp nodeEvent ''data''"
  by (simp add: classify_def Let_def)

lemma hasType_iff:
  "hasType nodeEvent \<longleftrightarrow> (\<exists>kvs. nodeEvent = JObj kvs \<and> truthy (map_of kvs ''type''))"
  by (cases nodeEvent) (simp_all add: hasType_def)

lemma classify_rows:
  "fst (classify ''generate_query'' p) =
     \<lparr>title = codeUnits ''Generating Search Queries'', data = ownProp p ''data'',
      sectionType = ''Querying'', isSources = False\<rparr>"
  "ownProp p ''type'' = Some (JStr ''status'') \<Longrightarrow> fst (classify ''web_research'' p) =
     \<lparr>title = codeUnits ''Web Research Status'', data = ownProp p ''data'',
      sectionType = ''Searching'', isSources = False\<rparr>"
  "ownProp p ''type'' = Some (JStr ''sources'') \<Longrightarrow> fst (classify ''web_research'' p) =
     \<lparr>title = codeUnits ''Found Sources'', data = ownProp p ''data'',
      sectionType = ''Searching'', isSources = True\<rparr>"
  "ownProp p ''type'' = Some (JStr ''status'') \<Longrightarrow> fst (classify ''reflection'' p) =
     \<lparr>title = codeUnits ''Reflection Status'', data = ownProp p ''data'',
      sectionType = ''Planning'', isSources = False\<rparr>"
  "ownProp p ''type'' = Some (JStr ''plan'') \<Longrightarrow> fst (classify ''reflection'' p) =
     \<lparr>title = codeUnits ''Reflection Plan'', data = ownProp p ''data'',
      sectionType = ''Planning'', isSources = False\<rparr>"
  "ownProp p ''type'' = Some (JStr ''status'') \<Longrightarrow> fst (classify ''code_execution'' p) =
     \<lparr>title = codeUnits ''Code Execution Status'', data = ownProp p ''data'',
      sectionType = ''Coding'', isSources = False\<rparr>"
  "ownProp p ''type'' = Some (JStr ''output'') \<Longrightarrow> fst (classify ''code_execution'' p) =
     \<lparr>title = codeUnits ''Code Execution Output'', data = ownProp p ''data'',
      sectionType = ''Coding'', isSources = False\<rparr>"
  "fst (classify ''finalize_answer'' p) =
     \<lparr>title = codeUnits ''Finalizing Answer'', data = ownProp p ''data'',
      sectionType = ''Finalizing'', isSources = False\<rparr>"
  by (simp_all add: classify_def Let_def)

lemma classify_general:
  "nodeName \<notin> {''generate_query'', ''web_research'', ''reflection'', ''code_execution'',
                 ''finalize_answer''} \<Longrightarrow>
   fst (classify nodeName p) =
     \<lparr>title = defaultTitle nodeName, data = ownProp p ''data'',
      sectionType = ''General'', isSources = False\<rparr>"
  by (simp add: classify_def Let_def)

text \<open>
  Claim C1, as stated, fails: a payload that is an object carrying a \<open>type\<close> field whose
  value is the empty string, under a node name the classifier does not recognize,
  produces no entry at all (the guard tests the truthiness of \<open>nodeEvent.type\<close>).
\<close>

theorem classifier_empty_type_no_entry:
  "ownProp (JObj [(''type'', JStr []), (''data'', JStr ''x'')]) ''type'' = Some (JStr [])
   \<and> processNodes [(''my_node'', JObj [(''type'', JStr []), (''data'', JStr ''x'')])]
        ([], False) = ([], False)"
  by (simp add: hasType_def)

text \<open>
  Claim C1, amended: for every node payload that is an object carrying a truthy \<open>type\<close>
  (for a string: a non-empty one), the loop body pushes exactly one entry, whose \<open>data\<close>
  is the payload's \<open>data\<close> and whose section and title follow the table
  (\<open>generate_query\<close>: Querying, "Generating Search Queries"; \<open>web_research\<close>: Searching,
  with "Web Research Status" for type \<open>status\<close> and "Found Sources" with
  \<open>isSources = true\<close> for type \<open>sources\<close>; \<open>reflection\<close>: Planning, with "Reflection
  Status" and "Reflection Plan"; \<open>code_execution\<close>: Coding, with "Code Execution Status"
  and "Code Execution Output"; \<open>finalize_answer\<close>: Finalizing, "Finalizing Answer"),
  and the completion flag is raised exactly by \<open>finalize_answer\<close>. A node name outside
  the table gives one General entry titled by the node name humanized. A payload that
  lacks \<open>type\<close>, or whose \<open>type\<close> is falsy, or that is not an object, produces no entry
  and leaves the flag as it was. Over a whole tick the new entries are the entries of
  the accepted payloads, one each, in enumeration order.

  The humanized name is spelled out: the empty name gives the empty title; otherwise
  every underscore becomes a space, the characters after the first are kept, and the
  first character is replaced by its upper case, which is given for every character
  below 256 (\<open>a\<close>..\<open>z\<close> and U+00E0..U+00FE except U+00F7 move down by 32, U+00B5 gives
  U+039C, U+00DF gives SS, U+00FF gives U+0178, any other character is unchanged).
\<close>

theorem classifier_one_entry_per_typed_payload:
  "(hasType nodeEvent \<longrightarrow>
      processNodes [(nodeName, nodeEvent)] (acc, fin)
        = (acc @ [fst (classify nodeName nodeEvent)], fin \<or> nodeName = ''finalize_answer'')
    \<and> data (fst (classify nodeName nodeEvent)) = ownProp nodeEvent ''data''
    \<and> (nodeName = ''generate_query'' \<longrightarrow>
          sectionType (fst (classify nodeName nodeEvent)) = ''Querying''
        \<and> title (fst (classify nodeName nodeEvent)) = codeUnits ''Generating Search Queries''
        \<and> \<not> isSources (fst (classify nodeName nodeEvent)))
    \<and> (nodeName = ''web_research'' \<longrightarrow>
          sectionType (fst (classify nodeName nodeEvent)) = ''Searching''
        \<and> isSources (fst (classify nodeName nodeEvent))
            = (ownProp nodeEvent ''type'' = Some (JStr ''sources''))
        \<and> (ownProp nodeEvent ''type'' = Some (JStr ''status'') \<longrightarrow>
              title (fst (classify nodeName nodeEvent)) = codeUnits ''Web Research Status'')
        \<and> (ownProp nodeEvent ''type'' = Some (JStr ''sources'') \<longrightarrow>
              title (fst (classify nodeName nodeEvent)) = codeUnits ''Found Sources''))
    \<and> (nodeName = ''reflection'' \<longrightarrow>
          sectionType (fst (classify nodeName nodeEvent)) = ''Planning''
        \<and> \<not> isSources (fst (classify nodeName nodeEvent))
        \<and> (ownProp nodeEvent ''type'' = Some (JStr ''status'') \<longrightarrow>
              title (fst (classify nodeName nodeEvent)) = codeUnits ''Reflection Status'')
        \<and> (ownProp nodeEvent ''type'' = Some (JStr ''plan'') \<longrightarrow>
              title (fst (classify nodeName nodeEvent)) = codeUnits ''Reflection Plan''))
    \<and> (nodeName = ''code_execution'' \<longrightarrow>
          sectionType (fst (classify nodeName nodeEvent)) = ''Coding''
        \<and> \<not> isSources (fst (classify nodeName nodeEvent))
        \<and> (ownProp nodeEvent ''type'' = Some (JStr ''status'') \<longrightarrow>
              title (fst (classify nodeName nodeEvent)) = codeUnits ''Code Execution Status'')
        \<and> (ownProp nodeEvent ''type'' = Some (JStr ''output'') \<longrightarrow>
              title (fst (classify nodeName nodeEvent)) = codeUnits ''Code Execution Output''))
    \<and> (nodeName = ''finalize_answer'' \<longrightarrow>
          sectionType (fst (classify nodeName nodeEvent)) = ''Finalizing''
        \<and> title (fst (classify nodeName nodeEvent)) = codeUnits ''Finalizing Answer''
        \<and> \<not> isSources (fst (classify nodeName nodeEvent))
        \<and> snd (processNodes [(nodeName, nodeEvent)] (acc, fin)))
    \<and> (nodeName \<notin> {''generate_query'', ''web_research'', ''reflection'', ''code_execution'',
                     ''finalize_answer''} \<longrightarrow>
          sectionType (fst (classify nodeName nodeEvent)) = ''General''
        \<and> title (fst (classify nodeName nodeEvent)) = defaultTitle nodeName
        \<and> \<not> isSources (fst (classify nodeName nodeEvent))))
   \<and> (\<not> hasType nodeEvent \<longrightarrow>
        processNodes [(nodeName, nodeEvent)] (acc, fin) = (acc, fin))
   \<and> (hasType nodeEvent \<longleftrightarrow>
        (\<exists>kvs. nodeEvent = JObj kvs \<and> truthy (map_of kvs ''type'')))
   \<and> fst (processNodes event ([], fin))
        = map (\<lambda>(n, e). fst (classify n e)) (filter (\<lambda>(n, e). hasType e) event)
   \<and> defaultTitle [] = []
   \<and> defaultTitle (c # cs) =
        toUpperCase (if c = CHR ''_'' then CHR '' '' else c)
        @ map (\<lambda>d. of_char (if d = CHR ''_'' then CHR '' '' else d)) cs
   \<and> toUpperCase c =
        (if (97 \<le> (of_char c :: nat) \<and> (of_char c :: nat) \<le> 122)
            \<or> (224 \<le> (of_char c :: nat) \<and> (of_char c :: nat) \<le> 246)
            \<or> (248 \<le> (of_char c :: nat) \<and> (of_char c :: nat) \<le> 254)
         then [of_char c - 32]
         else if (of_char c :: nat) = 181 then [924]
         else if (of_char c :: nat) = 223 then [83, 83]
         else if (of_char c :: nat) = 255 then [376]
         else [of_char c])"
proof -
  have one: "hasType nodeEvent \<Longrightarrow>
      processNodes [(nodeName, nodeEvent)] (acc, fin)
        = (acc @ [fst (classify nodeName nodeEvent)], fin \<or> nodeName = ''finalize_answer'')"
    by (simp add: classify_flag)
  have none: "\<not> hasType nodeEvent \<Longrightarrow>
      processNodes [(nodeName, nodeEvent)] (acc, fin) = (acc, fin)"
    by simp
  have web: "nodeName = ''web_research'' \<Longrightarrow>
      sectionType (fst (classify nodeName nodeEvent)) = ''Searching''
      \<and> isSources (fst (classify nodeName nodeEvent))
          = (ownProp nodeEvent ''type'' = Some (JStr ''sources''))"
    by (simp add: classify_def Let_def)
  have refl: "nodeName = ''reflection'' \<Longrightarrow>
      sectionType (fst (classify nodeName nodeEvent)) = ''Planning''
      \<and> \<not> isSources (fst (classify nodeName nodeEvent))"
    by (simp add: classify_def Let_def)
  have code: "nodeName = ''code_execution'' \<Longrightarrow>
      sectionType (fst (classify nodeName nodeEvent)) = ''Coding''
      \<and> \<not> isSources (fst (classify nodeName nodeEvent))"
    by (simp add: classify_def Let_def)
  have tick: "fst (processNodes event ([], fin))
        = map (\<lambda>(n, e). fst (classify n e)) (filter (\<lambda>(n, e). hasType e) event)"
    by (simp add: processNodes_append)
  show ?thesis
    unfolding defaultTitle_humanized toUpperCase_table [symmetric]
    using one none web refl code tick hasType_iff [of nodeEvent]
      classify_data [of nodeName nodeEvent]
      classify_rows [of nodeEvent] classify_general [of nodeName nodeEvent]
    by (auto simp: classify_flag)
qed

theorem classifier_one_entry_per_typed_payload_witness:
  "processNodes [(''my_custom_node'', JObj [(''type'', JStr ''ping''), (''data'', JStr ''x'')])]
     ([], False)
     = ([\<lparr>title = codeUnits ''My custom node'', data = Some (JStr ''x''),
          sectionType = ''General'', isSources = False\<rparr>], False)
   \<and> processNodes [(''web_research'', JObj [(''type'', JStr ''sources''), (''data'', JArr [])])]
       ([], False)
     = ([\<lparr>title = codeUnits ''Found Sources'', data = Some (JArr []),
          sectionType = ''Searching'', isSources = True\<rparr>], False)
   \<and> processNodes [(''finalize_answer'', JObj [(''type'', JStr ''status'')])] ([], False)
     = ([\<lparr>title = codeUnits ''Finalizing Answer'', data = None,
          sectionType = ''Finalizing'', isSources = False\<rparr>], True)
   \<and> processNodes [(''my_custom_node'', JObj [(''data'', JStr ''x'')])] ([], False) = ([], False)
   \<and> defaultTitle [CHR 0xE9, CHR ''_'', CHR ''a''] = [0xC9, 0x20, 0x61]
   \<and> defaultTitle [CHR 0xDF, CHR ''a''] = [0x53, 0x53, 0x61]"
proof -
  let ?p1 = "JObj [(''type'', JStr ''ping''), (''data'', JStr ''x'')]"
  let ?p2 = "JObj [(''type'', JStr ''sources''), (''data'', JArr [])]"
  let ?p3 = "JObj [(''type'', JStr ''status'')]"
  let ?p4 = "JObj [(''data'', JStr ''x'')]"
  have h: "hasType ?p1" "hasType ?p2" "hasType ?p3" "\<not> hasType ?p4"
    by (simp_all add: hasType_def)
  have e1: "fst (classify ''my_custom_node'' ?p1)
      = \<lparr>title = codeUnits ''My custom node'', data = Some (JStr ''x''),
         sectionType = ''General'', isSources = False\<rparr>"
    by (simp add: classify_def defaultTitle_def codeUnits_def toUpperCase_examples)
  have e2: "fst (classify ''web_research'' ?p2)
      = \<lparr>title = codeUnits ''Found Sources'', data = Some (JArr []),
         sectionType = ''Searching'', isSources = True\<rparr>"
    by (simp add: classify_def)
  have e3: "fst (classify ''finalize_answer'' ?p3)
      = \<lparr>title = codeUnits ''Finalizing Answer'', data = None,
         sectionType = ''Finalizing'', isSources = False\<rparr>"
    by (simp add: classify_def)
  have t1: "defaultTitle [CHR 0xE9, CHR ''_'', CHR ''a''] = [0xC9, 0x20, 0x61]"
    using classifier_one_entry_per_typed_payload
      [where c = "CHR 0xE9" and cs = "[CHR ''_'', CHR ''a'']"]
    by (simp add: toUpperCase_examples)
  have t2: "defaultTitle [CHR 0xDF, CHR ''a''] = [0x53, 0x53, 0x61]"
    using classifier_one_entry_per_typed_payload [where c = "CHR 0xDF" and cs = "[CHR ''a'']"]
    by (simp add: toUpperCase_examples)
  have p1: "processNodes [(''my_custom_node'', ?p1)] ([], False)
      = ([fst (classify ''my_custom_node'' ?p1)], False)"
    using h classifier_one_entry_per_typed_payload
      [where nodeEvent = ?p1 and nodeName = "''my_custom_node''" and acc = "[]" and fin = False]
    by simp
  have p2: "processNodes [(''web_research'', ?p2)] ([], False)
      = ([fst (classify ''web_research'' ?p2)], False)"
    using h classifier_one_entry_per_typed_payload
      [where nodeEvent = ?p2 and nodeName = "''web_research''" and acc = "[]" and fin = False]
    by simp
  have p3: "processNodes [(''finalize_answer'', ?p3)] ([], False)
      = ([fst (classify ''finalize_answer'' ?p3)], True)"
    using h classifier_one_entry_per_typed_payload
      [where nodeEvent = ?p3 and nodeName = "''finalize_answer''" and acc = "[]" and fin = False]
    by simp
  have p4: "processNodes [(''my_custom_node'', ?p4)] ([], False) = ([], False)"
    using h classifier_one_entry_per_typed_payload
      [where nodeEvent = ?p4 and nodeName = "''my_custom_node''" and acc = "[]" and fin = False]
    by simp
  show ?thesis
    unfolding p1 p2 p3 p4 e1 e2 e3 t1 t2 by simp
qed

section \<open>Properties of the grouped view\<close>

lemma set_firstSeen [simp]: "set (firstSeen xs) = set xs"
  by (induction xs) auto

lemma distinct_firstSeen [simp]: "distinct (firstSeen xs)"
  by (induction xs) auto

lemma firstSeen_snoc:
  "firstSeen (xs @ [x]) = (if x \<in> set xs then firstSeen xs else firstSeen xs @ [x])"
proof (induction xs)
  case Nil
  then show ?case by simp
next
  case (Cons a xs)
  then show ?case by (auto simp: filter_id_conv)
qed

lemma map_of_partitionBy:
  "map_of (partitionBy timeline) k =
     (if k \<in> sectionType ` set timeline
      then Some (filter (\<lambda>e. sectionType e = k) timeline) else None)"
  by (auto simp: partitionBy_def map_of_map_restrict restrict_map_def)

lemma pushTo_partitionBy:
  "sectionType e \<in> sectionType ` set pre \<Longrightarrow>
   pushTo (sectionType e) e (partitionBy pre) = partitionBy (pre @ [e])"
  by (auto simp: pushTo_def partitionBy_def firstSeen_snoc)

lemma pushTo_partitionBy_new:
  "sectionType e \<notin> sectionType ` set pre \<Longrightarrow>
   pushTo (sectionType e) e (partitionBy pre @ [(sectionType e, [])]) = partitionBy (pre @ [e])"
proof -
  assume "sectionType e \<notin> sectionType ` set pre"
  then have new: "\<forall>x \<in> set pre. sectionType x \<noteq> sectionType e"
    by (metis imageI)
  then have "filter (\<lambda>x. sectionType x = sectionType e) pre = []"
    by (simp add: filter_empty_conv)
  with new show ?thesis
    by (auto simp: pushTo_def partitionBy_def firstSeen_snoc)
qed

lemma groupStep_partitionBy:
  "sectionType e \<notin> set objectPrototypeKeys \<Longrightarrow>
   groupStep (partitionBy pre) e = Inr (partitionBy (pre @ [e]))"
  by (simp add: groupStep_def lookupSlot_def Let_def map_of_partitionBy
      pushTo_partitionBy pushTo_partitionBy_new)

lemma reduceGroups_partitionBy:
  "\<forall>e \<in> set es. sectionType e \<notin> set objectPrototypeKeys \<Longrightarrow>
   reduceGroups es (partitionBy pre) = Inr (partitionBy (pre @ es))"
proof (induction es arbitrary: pre)
  case Nil
  then show ?case by simp
next
  case (Cons e es)
  then show ?case
    using Cons.IH [of "pre @ [e]"] by (simp add: groupStep_partitionBy)
qed

lemma groupedEvents_partitionBy:
  "\<forall>e \<in> set timeline. sectionType e \<notin> set objectPrototypeKeys \<Longrightarrow>
   groupedEvents timeline = Inr (partitionBy timeline)"
  using reduceGroups_partitionBy [of timeline "[]"]
  by (simp add: groupedEvents_def partitionBy_def)

lemma objectEntries_no_index:
  "\<forall>(k, v) \<in> set obj. \<not> isArrayIndex k \<Longrightarrow> objectEntries obj = obj"
proof -
  assume h: "\<forall>(k, v) \<in> set obj. \<not> isArrayIndex k"
  then have "filter (\<lambda>(k, v). isArrayIndex k) obj = []"
    by (auto simp: filter_empty_conv)
  moreover from h have "filter (\<lambda>(k, v). \<not> isArrayIndex k) obj = obj"
    by (auto simp: filter_id_conv)
  ultimately show ?thesis by (simp add: objectEntries_def)
qed

lemma mset_concat_filters:
  "distinct ks \<Longrightarrow>
   mset (concat (map (\<lambda>c. filter (\<lambda>e. f e = c) xs) ks)) = mset (filter (\<lambda>e. f e \<in> set ks) xs)"
proof (induction ks)
  case Nil
  then show ?case by simp
next
  case (Cons k ks)
  have "mset (filter (\<lambda>e. f e = k) xs) + mset (filter (\<lambda>e. f e \<in> set ks) xs)
      = mset (filter (\<lambda>e. f e = k \<or> f e \<in> set ks) xs)"
    using Cons.prems by (induction xs) auto
  with Cons show ?case by simp
qed

lemma mset_partitionBy: "mset (concat (map snd (partitionBy timeline))) = mset timeline"
  using mset_concat_filters [of "firstSeen (map sectionType timeline)" sectionType timeline]
  by (simp add: partitionBy_def comp_def)

lemma classifierSections_ordinary:
  "k \<in> set classifierSections \<Longrightarrow> k \<notin> set objectPrototypeKeys \<and> \<not> isArrayIndex k"
  by (auto simp: classifierSections_def objectPrototypeKeys_def isArrayIndex_def isDigit_def)

lemma classify_section: "sectionType (fst (classify n p)) \<in> set classifierSections"
  by (simp add: classify_def classifierSections_def Let_def)

lemma timeline_onUpdateEvent:
  "processedEventsTimeline (onUpdateEvent event s) =
     processedEventsTimeline s
     @ map (\<lambda>(n, e). fst (classify n e)) (filter (\<lambda>(n, e). hasType e) event)"
  by (simp add: onUpdateEvent_def processNodes_append)

lemma sections_onUpdateEvent:
  "sectionType ` set (processedEventsTimeline s) \<subseteq> set classifierSections \<Longrightarrow>
   sectionType ` set (processedEventsTimeline (onUpdateEvent event s)) \<subseteq> set classifierSections"
  by (auto simp: timeline_onUpdateEvent classify_section)

lemma sections_appStep:
  "sectionType ` set (processedEventsTimeline s) \<subseteq> set classifierSections \<Longrightarrow>
   sectionType ` set (processedEventsTimeline (appStep a s)) \<subseteq> set classifierSections"
  by (cases a) (simp_all add: sections_onUpdateEvent handleSubmit_def)

lemma sections_appRun:
  "sectionType ` set (processedEventsTimeline s) \<subseteq> set classifierSections \<Longrightarrow>
   sectionType ` set (processedEventsTimeline (appRun acts s)) \<subseteq> set classifierSections"
  unfolding appRun_def
  by (induction acts arbitrary: s) (simp_all add: sections_appStep)

lemma grouped_view_of_sections:
  assumes "sectionType ` set timeline \<subseteq> set classifierSections"
  shows "groupedEvents timeline = Inr (partitionBy timeline)"
    and "objectEntries (partitionBy timeline) = partitionBy timeline"
proof -
  show "groupedEvents timeline = Inr (partitionBy timeline)"
    using assms classifierSections_ordinary by (intro groupedEvents_partitionBy) blast
  show "objectEntries (partitionBy timeline) = partitionBy timeline"
    using assms classifierSections_ordinary
    by (intro objectEntries_no_index) (auto simp: partitionBy_def)
qed

text \<open>
  Claim C2: for every sequence of appended ticks and submissions that starts from an
  empty live timeline, the grouped view is a proper partition of the live timeline.
  The reduction returns an object (it does not throw); the order of its keys, as
  \<open>Object.keys\<close> and \<open>Object.entries\<close> list them, is the order in which each
  \<open>sectionType\<close> first occurs in the timeline;
  the keys are distinct; the entries listed under a key are the subsequence of the
  timeline with that \<open>sectionType\<close>, in their original order; an entry of the timeline
  is listed under a key exactly when the key is its \<open>sectionType\<close>; and, counting
  repetitions, the groups together hold exactly the entries of the timeline.
\<close>

theorem groupedEvents_partitions_live_timeline:
  assumes "processedEventsTimeline s = []"
  shows "let timeline = processedEventsTimeline (appRun acts s)
         in \<exists>g. groupedEvents timeline = Inr g
              \<and> objectKeys g = firstSeen (map sectionType timeline)
              \<and> distinct (objectKeys g)
              \<and> (\<forall>(c, es) \<in> set (objectEntries g).
                    es = filter (\<lambda>e. sectionType e = c) timeline)
              \<and> (\<forall>e \<in> set timeline. \<forall>(c, es) \<in> set (objectEntries g).
                    e \<in> set es \<longleftrightarrow> c = sectionType e)
              \<and> mset (concat (map snd (objectEntries g))) = mset timeline"
proof -
  define timeline where "timeline = processedEventsTimeline (appRun acts s)"
  have sec: "sectionType ` set timeline \<subseteq> set classifierSections"
    unfolding timeline_def using assms by (intro sections_appRun) simp
  have g: "groupedEvents timeline = Inr (partitionBy timeline)"
    and oe: "objectEntries (partitionBy timeline) = partitionBy timeline"
    using grouped_view_of_sections [OF sec] by simp_all
  have keys: "objectKeys (partitionBy timeline) = firstSeen (map sectionType timeline)"
    by (simp add: objectKeys_def oe) (simp add: partitionBy_def comp_def)
  have sub: "\<forall>(c, es) \<in> set (partitionBy timeline). es = filter (\<lambda>e. sectionType e = c) timeline"
    by (auto simp: partitionBy_def)
  have one: "\<forall>e \<in> set timeline. \<forall>(c, es) \<in> set (partitionBy timeline).
               e \<in> set es \<longleftrightarrow> c = sectionType e"
    by (auto simp: partitionBy_def)
  show ?thesis
    unfolding Let_def timeline_def [symmetric]
    using g keys sub one mset_partitionBy [of timeline] by (auto simp: oe)
qed

lemma ticks_example:
  "processedEventsTimeline (appRun
     [Tick [(''generate_query'', JObj [(''type'', JStr ''status'')])],
      Tick [(''web_research'', JObj [(''type'', JStr ''sources''), (''data'', JArr [])]),
            (''generate_query'', JObj [(''type'', JStr ''status'')])]] initialState)
   = [\<lparr>title = codeUnits ''Generating Search Queries'', data = None,
        sectionType = ''Querying'', isSources = False\<rparr>,
      \<lparr>title = codeUnits ''Found Sources'', data = Some (JArr []),
        sectionType = ''Searching'', isSources = True\<rparr>,
      \<lparr>title = codeUnits ''Generating Search Queries'', data = None,
        sectionType = ''Querying'', isSources = False\<rparr>]"
  by (simp add: appRun_def initialState_def timeline_onUpdateEvent hasType_def classify_def)

theorem groupedEvents_partitions_live_timeline_witness:
  "processedEventsTimeline initialState = []
   \<and> (\<exists>g. groupedEvents (processedEventsTimeline (appRun
        [Tick [(''generate_query'', JObj [(''type'', JStr ''status'')])],
         Tick [(''web_research'', JObj [(''type'', JStr ''sources''), (''data'', JArr [])]),
               (''generate_query'', JObj [(''type'', JStr ''status'')])]] initialState)) = Inr g
        \<and> objectKeys g = [''Querying'', ''Searching''])"
proof -
  have h: "processedEventsTimeline initialState = []"
    by (simp add: initialState_def)
  show ?thesis
    using h groupedEvents_partitions_live_timeline [OF h, of "[Tick [(''generate_query'', JObj [(''type'', JStr ''status'')])],
         Tick [(''web_research'', JObj [(''type'', JStr ''sources''), (''data'', JArr [])]),
               (''generate_query'', JObj [(''type'', JStr ''status'')])]]"]
    unfolding Let_def ticks_example by auto
qed

section \<open>Properties of the expand state\<close>

lemma autoExpand_apply:
  "autoExpand keys e k = (if k \<in> set keys \<and> lookupSlot e k = Absent then Some True else e k)"
proof -
  have "foldl (\<lambda>prev k. if lookupSlot e k = Absent then prev(k \<mapsto> True) else prev) acc keys k
      = (if k \<in> set keys \<and> lookupSlot e k = Absent then Some True else acc k)" for acc
    by (induction keys arbitrary: acc) auto
  then show ?thesis by (simp add: autoExpand_def)
qed

lemma lookupSlot_Absent: "lookupSlot e k = Absent \<longleftrightarrow> e k = None \<and> k \<notin> set objectPrototypeKeys"
  by (simp add: lookupSlot_def split: option.splits)

lemma autoExpand_idem: "autoExpand keys (autoExpand keys e) = autoExpand keys e"
  by (rule ext) (auto simp: autoExpand_apply lookupSlot_Absent)

lemma toggleSection_other: "k \<noteq> c \<Longrightarrow> toggleSection c e k = e k"
  by (simp add: toggleSection_def)

lemma objectKeys_partitionBy:
  "sectionType ` set timeline \<subseteq> set classifierSections \<Longrightarrow>
   set (objectKeys (partitionBy timeline)) = sectionType ` set timeline"
  by (simp add: objectKeys_def grouped_view_of_sections) (force simp: partitionBy_def)

lemma readPath_sections:
  "sectionType ` set timeline \<subseteq> set classifierSections \<Longrightarrow>
   readPath timeline e = Inr (autoExpand (objectKeys (partitionBy timeline)) e)"
  by (simp add: readPath_def grouped_view_of_sections)

lemma uiRun_keeps_value:
  "\<forall>evs. Render evs \<in> set acts \<longrightarrow> sectionType ` set evs \<subseteq> set classifierSections \<Longrightarrow>
   Toggle c \<notin> set acts \<Longrightarrow> e c = Some b \<Longrightarrow>
   \<exists>e'. uiRun acts e = Inr e' \<and> e' c = Some b"
proof (induction acts arbitrary: e)
  case Nil
  then show ?case by simp
next
  case (Cons a acts)
  show ?case
  proof (cases a)
    case (Render evs)
    with Cons.prems have sec: "sectionType ` set evs \<subseteq> set classifierSections"
      by simp
    have "autoExpand (objectKeys (partitionBy evs)) e c = Some b"
      using Cons.prems(3) by (simp add: autoExpand_apply lookupSlot_Absent)
    then show ?thesis
      using Cons.IH [of "autoExpand (objectKeys (partitionBy evs)) e"] Cons.prems Render
      by (simp add: readPath_sections [OF sec])
  next
    case (Toggle k)
    with Cons.prems have "k \<noteq> c" by auto
    then have "toggleSection k e c = Some b"
      using Cons.prems(3) by (simp add: toggleSection_other)
    then show ?thesis
      using Cons.IH [of "toggleSection k e"] Cons.prems Toggle by simp
  qed
qed

text \<open>
  Claim C5, as stated, fails: for a section that has no key in the expand state,
  \<open>!prev[sectionType]\<close> negates \<open>undefined\<close>, so the toggle stores \<open>true\<close>, not \<open>false\<close>.
\<close>

theorem toggleSection_absent_key_becomes_true:
  "toggleSection ''Coding'' Map.empty ''Coding'' = Some True"
  by (simp add: toggleSection_def lookupSlot_def objectPrototypeKeys_def)

text \<open>
  Claim C5, amended: for every \<open>sectionType\<close> \<open>c\<close> that has no key in the expand state
  (and is not the name of a member of \<open>Object.prototype\<close>), \<open>toggle(c)\<close> treats the
  current value as false (the section reads as collapsed before the call) and flips
  it, so after the call \<open>ExpandState[c] = true\<close> and the section reads as expanded.
\<close>

theorem toggleSection_absent_key:
  "expandedSections c = None \<Longrightarrow> c \<notin> set objectPrototypeKeys \<Longrightarrow>
   toggleSection c expandedSections c = Some True
   \<and> \<not> isExpanded expandedSections c
   \<and> isExpanded (toggleSection c expandedSections) c"
  by (simp add: toggleSection_def isExpanded_def lookupSlot_def)

theorem toggleSection_absent_key_witness:
  "Map.empty ''Coding'' = (None :: bool option) \<and> ''Coding'' \<notin> set objectPrototypeKeys
   \<and> toggleSection ''Coding'' Map.empty ''Coding'' = Some True"
proof -
  have h: "Map.empty ''Coding'' = (None :: bool option)" "''Coding'' \<notin> set objectPrototypeKeys"
    by (simp_all add: objectPrototypeKeys_def)
  show ?thesis using h toggleSection_absent_key [OF h] by simp
qed

text \<open>
  Claim C6: when the read path runs on a timeline of classified entries, every
  \<open>sectionType\<close> of the grouped view that has no key in the expand state gets the value
  \<open>true\<close>; a key that already has a value keeps it, and so does every key outside the
  grouped view; running the read path again changes nothing (the initialization
  happens once); and afterwards no sequence of renders and of toggles of other
  sections changes the value of a key: only a toggle of that section does.
\<close>

theorem autoExpand_initializes_once:
  assumes "sectionType ` set timeline \<subseteq> set classifierSections"
  shows "\<exists>e'. readPath timeline expandedSections = Inr e'
           \<and> (\<forall>c \<in> sectionType ` set timeline. expandedSections c = None \<longrightarrow> e' c = Some True)
           \<and> (\<forall>c b. expandedSections c = Some b \<longrightarrow> e' c = Some b)
           \<and> (\<forall>c. c \<notin> sectionType ` set timeline \<longrightarrow> e' c = expandedSections c)
           \<and> readPath timeline e' = Inr e'
           \<and> (\<forall>acts c b.
                 (\<forall>evs. Render evs \<in> set acts \<longrightarrow> sectionType ` set evs \<subseteq> set classifierSections)
                 \<and> Toggle c \<notin> set acts \<and> e' c = Some b
                 \<longrightarrow> (\<exists>e''. uiRun acts e' = Inr e'' \<and> e'' c = Some b))"
proof -
  let ?keys = "objectKeys (partitionBy timeline)"
  let ?e' = "autoExpand ?keys expandedSections"
  have keys: "set ?keys = sectionType ` set timeline"
    using assms by (rule objectKeys_partitionBy)
  have r: "readPath timeline e = Inr (autoExpand ?keys e)" for e
    using assms by (rule readPath_sections)
  have new: "\<forall>c \<in> sectionType ` set timeline. expandedSections c = None \<longrightarrow> ?e' c = Some True"
  proof (intro ballI impI)
    fix c assume c: "c \<in> sectionType ` set timeline" and n: "expandedSections c = None"
    from c assms have "c \<notin> set objectPrototypeKeys"
      using classifierSections_ordinary by blast
    with c n keys show "?e' c = Some True"
      by (simp add: autoExpand_apply lookupSlot_Absent)
  qed
  have old: "\<forall>c b. expandedSections c = Some b \<longrightarrow> ?e' c = Some b"
    by (simp add: autoExpand_apply lookupSlot_Absent)
  have other: "\<forall>c. c \<notin> sectionType ` set timeline \<longrightarrow> ?e' c = expandedSections c"
    using keys by (simp add: autoExpand_apply)
  have idem: "readPath timeline ?e' = Inr ?e'"
    by (simp add: r autoExpand_idem)
  have later: "\<forall>acts c b.
      (\<forall>evs. Render evs \<in> set acts \<longrightarrow> sectionType ` set evs \<subseteq> set classifierSections)
      \<and> Toggle c \<notin> set acts \<and> ?e' c = Some b
      \<longrightarrow> (\<exists>e''. uiRun acts ?e' = Inr e'' \<and> e'' c = Some b)"
    using uiRun_keeps_value by blast
  show ?thesis
    using r [of expandedSections] new old other idem later by blast
qed

theorem autoExpand_initializes_once_witness:
  "sectionType ` set [\<lparr>title = codeUnits ''Code Execution Status'', data = None,
      sectionType = ''Coding'', isSources = False\<rparr>] \<subseteq> set classifierSections
   \<and> (\<exists>e'. readPath [\<lparr>title = codeUnits ''Code Execution Status'', data = None,
               sectionType = ''Coding'', isSources = False\<rparr>] Map.empty = Inr e'
          \<and> e' ''Coding'' = Some True
          \<and> (\<exists>e''. uiRun [Render [\<lparr>title = codeUnits ''Code Execution Status'', data = None,
               sectionType = ''Coding'', isSources = False\<rparr>], Toggle ''Querying''] e' = Inr e''
                \<and> e'' ''Coding'' = Some True))"
proof -
  let ?evs = "[\<lparr>title = codeUnits ''Code Execution Status'', data = None,
      sectionType = ''Coding'', isSources = False\<rparr>]"
  have h: "sectionType ` set ?evs \<subseteq> set classifierSections"
    by (simp add: classifierSections_def)
  from autoExpand_initializes_once [OF h, of Map.empty] obtain e' where
    r: "readPath ?evs Map.empty = Inr e'"
    and new: "\<forall>c \<in> sectionType ` set ?evs. Map.empty c = (None :: bool option) \<longrightarrow> e' c = Some True"
    and later: "\<forall>acts c b.
      (\<forall>evs. Render evs \<in> set acts \<longrightarrow> sectionType ` set evs \<subseteq> set classifierSections)
      \<and> Toggle c \<notin> set acts \<and> e' c = Some b
      \<longrightarrow> (\<exists>e''. uiRun acts e' = Inr e'' \<and> e'' c = Some b)"
    by blast
  from new have c: "e' ''Coding'' = Some True" by simp
  have "\<exists>e''. uiRun [Render ?evs, Toggle ''Querying''] e' = Inr e'' \<and> e'' ''Coding'' = Some True"
    using later c h by (intro later [rule_format]) auto
  with h r c show ?thesis by blast
qed

text \<open>
  Claim C7, as stated, fails: for a category that has no key in the expand state, two
  toggles in succession do not restore the prior value. The stored value goes from
  \<open>undefined\<close> to \<open>true\<close> to \<open>false\<close>, and the difference shows: the read path expands
  the section from the state without the key, and leaves it collapsed after the two
  toggles.
\<close>

theorem toggleSection_twice_absent_key_not_restored:
  "(Map.empty :: string \<rightharpoonup> bool) ''Coding'' = None
   \<and> toggleSection ''Coding'' (toggleSection ''Coding'' Map.empty) ''Coding'' = Some False
   \<and> (\<exists>e. readPath [\<lparr>title = codeUnits ''Code Execution Status'', data = None,
                        sectionType = ''Coding'', isSources = False\<rparr>] Map.empty = Inr e
          \<and> e ''Coding'' = Some True)
   \<and> (\<exists>e. readPath [\<lparr>title = codeUnits ''Code Execution Status'', data = None,
                        sectionType = ''Coding'', isSources = False\<rparr>]
              (toggleSection ''Coding'' (toggleSection ''Coding'' Map.empty)) = Inr e
          \<and> e ''Coding'' = Some False)"
proof -
  let ?evs = "[\<lparr>title = codeUnits ''Code Execution Status'', data = None,
      sectionType = ''Coding'', isSources = False\<rparr>]"
  have sec: "sectionType ` set ?evs \<subseteq> set classifierSections"
    by (simp add: classifierSections_def)
  have keys: "''Coding'' \<in> set (objectKeys (partitionBy ?evs))"
    using objectKeys_partitionBy [OF sec] by simp
  have t: "toggleSection ''Coding'' (toggleSection ''Coding'' Map.empty) ''Coding'' = Some False"
    by (simp add: toggleSection_def lookupSlot_def objectPrototypeKeys_def)
  have a: "lookupSlot (Map.empty :: string \<rightharpoonup> bool) ''Coding'' = Absent"
    by (simp add: lookupSlot_def objectPrototypeKeys_def)
  have 1: "autoExpand (objectKeys (partitionBy ?evs)) Map.empty ''Coding'' = Some True"
    using keys a by (simp add: autoExpand_apply)
  have 2: "autoExpand (objectKeys (partitionBy ?evs))
        (toggleSection ''Coding'' (toggleSection ''Coding'' Map.empty)) ''Coding'' = Some False"
    using t by (simp add: autoExpand_apply lookupSlot_Absent)
  show ?thesis
    using t 1 2 by (simp add: readPath_sections [OF sec])
qed

text \<open>
  Claim C7, amended: for every category \<open>c\<close> that has a key in the expand state,
  toggling \<open>c\<close> twice in succession restores the prior expand value of \<open>c\<close>, and with it
  the whole expand state; the stored value of \<open>c\<close> is restored exactly when \<open>c\<close> has a
  key. For every expand state the two toggles leave every other category as it was
  and restore what the renderer reads for \<open>c\<close> (expanded or collapsed). For a category
  without a key (and not named like a member of \<open>Object.prototype\<close>) the stored value
  ends as \<open>false\<close>.
\<close>

theorem toggleSection_twice:
  "(toggleSection c (toggleSection c expandedSections) c = expandedSections c
      \<longleftrightarrow> expandedSections c \<noteq> None)
   \<and> (expandedSections c \<noteq> None \<longrightarrow>
        toggleSection c (toggleSection c expandedSections) = expandedSections)
   \<and> (\<forall>k. k \<noteq> c \<longrightarrow>
         toggleSection c (toggleSection c expandedSections) k = expandedSections k)
   \<and> isExpanded (toggleSection c (toggleSection c expandedSections)) c
        = isExpanded expandedSections c
   \<and> (lookupSlot expandedSections c = Absent \<longrightarrow>
        \<not> isExpanded expandedSections c
        \<and> toggleSection c (toggleSection c expandedSections) c = Some False)"
proof -
  have a: "isExpanded (toggleSection c (toggleSection c expandedSections)) c
      = isExpanded expandedSections c"
    by (simp add: toggleSection_def isExpanded_def lookupSlot_def split: option.splits)
  have b: "expandedSections c \<noteq> None \<Longrightarrow>
      toggleSection c (toggleSection c expandedSections) = expandedSections"
    by (rule ext) (auto simp: toggleSection_def lookupSlot_def)
  have d: "lookupSlot expandedSections c = Absent \<Longrightarrow>
      \<not> isExpanded expandedSections c
      \<and> toggleSection c (toggleSection c expandedSections) c = Some False"
    by (simp add: toggleSection_def isExpanded_def lookupSlot_def)
  have e: "toggleSection c (toggleSection c expandedSections) c \<noteq> None"
    by (simp add: toggleSection_def)
  have f: "(toggleSection c (toggleSection c expandedSections) c = expandedSections c)
      = (expandedSections c \<noteq> None)"
    using b e by (metis)
  show ?thesis using a b d f by (simp add: toggleSection_other)
qed

theorem toggleSection_twice_witness:
  "[''Coding'' \<mapsto> True] ''Coding'' \<noteq> None
   \<and> toggleSection ''Coding'' (toggleSection ''Coding'' [''Coding'' \<mapsto> True])
       = [''Coding'' \<mapsto> True]
   \<and> toggleSection ''Coding'' (toggleSection ''Coding'' [''Coding'' \<mapsto> False])
       = [''Coding'' \<mapsto> False]
   \<and> isExpanded (toggleSection ''Coding'' (toggleSection ''Coding'' [''Coding'' \<mapsto> True]))
        ''Coding''"
proof -
  have h: "[''Coding'' \<mapsto> True] ''Coding'' \<noteq> None" "[''Coding'' \<mapsto> False] ''Coding'' \<noteq> None"
    by simp_all
  have i: "isExpanded [''Coding'' \<mapsto> True] ''Coding''"
    by (simp add: isExpanded_def lookupSlot_def)
  show ?thesis
    using h i toggleSection_twice [of "''Coding''" "[''Coding'' \<mapsto> True]"]
      toggleSection_twice [of "''Coding''" "[''Coding'' \<mapsto> False]"]
    by simp
qed

section \<open>Properties of archival and submission\<close>

lemma historical_onUpdateEvent [simp]:
  "historicalActivities (onUpdateEvent event s) = historicalActivities s"
  by (simp add: onUpdateEvent_def split: prod.splits)

lemma historical_handleSubmit [simp]:
  "historicalActivities (fst (handleSubmit t e m n s)) = historicalActivities s"
  by (simp add: handleSubmit_def)

lemma historical_appStep [simp]: "historicalActivities (appStep a s) = historicalActivities s"
  by (cases a) simp_all

lemma historical_appRun [simp]: "historicalActivities (appRun acts s) = historicalActivities s"
  unfolding appRun_def by (induction acts arbitrary: s) simp_all

lemma runStopped_eval:
  "runStopped ms =
     \<lparr>processedEventsTimeline =
        [\<lparr>title = codeUnits ''Generating Search Queries'', data = Some (JStr ''q''),
           sectionType = ''Querying'', isSources = False\<rparr>,
         \<lparr>title = codeUnits ''Finalizing Answer'', data = Some (JStr ''done''),
           sectionType = ''Finalizing'', isSources = False\<rparr>],
      historicalActivities = Map.empty,
      hasFinalizeEventOccurred = True,
      messages = ms,
      isLoading = False\<rparr>"
  by (simp add: runStopped_def appRun_def queryTick_def finalizeTick_def initialState_def
      onUpdateEvent_def hasType_def classify_def)

lemma trim_examples: "trim ''   '' = []" "trim ''next question'' \<noteq> []"
  by (simp_all add: trim_def isWhiteSpace_def)



text \<open>
  Claim C4, as stated, fails: after the finalize event, when the run stops with a
  non-empty message list whose last message is a human message, the effect resets the
  latched flag: the signal is consumed and the pending state is left at once.
\<close>

theorem archiveEffect_consumes_signal_without_archive:
  "hasFinalizeEventOccurred (runStopped [humanMessage])
   \<and> \<not> isLoading (runStopped [humanMessage])
   \<and> msgType (last (messages (runStopped [humanMessage]))) = ''human''
   \<and> \<not> hasFinalizeEventOccurred (archiveEffect (runStopped [humanMessage]))"
  by (simp add: runStopped_eval humanMessage_def archiveEffect_def)

text \<open>
  Claim C4, amended: if a finalize event has been classified (the flag is latched) and
  the run then stops while the message list is non-empty and its last message is not
  an assistant message with a known identifier, the effect consumes the latched
  signal (it resets the flag) and writes no archive entry; unless another finalize
  event is classified, no archive entry is written afterwards either, whatever the
  message list becomes. The signal stays latched only while the run is active or the
  message list is empty.
\<close>

theorem archiveEffect_unmatched_tail:
  "(hasFinalizeEventOccurred s \<and> \<not> isLoading s \<and> messages s \<noteq> []
      \<and> \<not> (msgType (last (messages s)) = ''ai''
            \<and> (\<exists>i. msgId (last (messages s)) = Some i \<and> i \<noteq> []))
    \<longrightarrow> archiveEffect s = s\<lparr>hasFinalizeEventOccurred := False\<rparr>
      \<and> (\<forall>ms l. historicalActivities
                    (archiveEffect ((archiveEffect s)\<lparr>messages := ms, isLoading := l\<rparr>))
                  = historicalActivities s))
   \<and> (isLoading s \<or> messages s = [] \<longrightarrow> archiveEffect s = s)"
  by (auto simp: archiveEffect_def Let_def split: option.splits)

theorem archiveEffect_unmatched_tail_witness:
  "hasFinalizeEventOccurred (runStopped [humanMessage])
   \<and> \<not> isLoading (runStopped [humanMessage])
   \<and> messages (runStopped [humanMessage]) \<noteq> []
   \<and> msgType (last (messages (runStopped [humanMessage]))) \<noteq> ''ai''
   \<and> archiveEffect (runStopped [humanMessage])
       = (runStopped [humanMessage])\<lparr>hasFinalizeEventOccurred := False\<rparr>
   \<and> historicalActivities
        (archiveEffect ((archiveEffect (runStopped [humanMessage]))
           \<lparr>messages := [humanMessage, aiMessage], isLoading := False\<rparr>)) ''42'' = None"
proof -
  let ?s = "runStopped [humanMessage]"
  have h: "hasFinalizeEventOccurred ?s" "\<not> isLoading ?s" "messages ?s \<noteq> []"
    "msgType (last (messages ?s)) \<noteq> ''ai''"
    by (simp_all add: runStopped_eval humanMessage_def)
  have e: "historicalActivities ?s ''42'' = None"
    by (simp add: runStopped_eval)
  from archiveEffect_unmatched_tail [of ?s] h have a: "archiveEffect ?s = ?s\<lparr>hasFinalizeEventOccurred := False\<rparr>"
    and b: "\<forall>ms l. historicalActivities
                    (archiveEffect ((archiveEffect ?s)\<lparr>messages := ms, isLoading := l\<rparr>))
                  = historicalActivities ?s"
    by blast+
  from b have "historicalActivities
        (archiveEffect ((archiveEffect ?s)
           \<lparr>messages := [humanMessage, aiMessage], isLoading := False\<rparr>)) = historicalActivities ?s"
    by blast
  with e have "historicalActivities
        (archiveEffect ((archiveEffect ?s)
           \<lparr>messages := [humanMessage, aiMessage], isLoading := False\<rparr>)) ''42'' = None"
    by simp
  with h a show ?thesis by blast
qed

text \<open>
  Claim C10: for every input text whose trimmed form is empty, \<open>handleSubmit\<close> is a
  complete no-op: the state is returned as it was (the live timeline is not cleared,
  the latched flag is not reset) and no run request is dispatched. For any other input
  the live timeline is cleared, the flag is reset and a request is dispatched.
\<close>

theorem handleSubmit_blank_is_noop:
  "(trim submittedInputValue = [] \<longrightarrow>
      handleSubmit submittedInputValue effort model now s = (s, None))
   \<and> (trim submittedInputValue \<noteq> [] \<longrightarrow>
        processedEventsTimeline (fst (handleSubmit submittedInputValue effort model now s)) = []
      \<and> \<not> hasFinalizeEventOccurred (fst (handleSubmit submittedInputValue effort model now s))
      \<and> snd (handleSubmit submittedInputValue effort model now s) \<noteq> None)"
  by (simp add: handleSubmit_def)

theorem handleSubmit_blank_is_noop_witness:
  "trim ''   '' = []
   \<and> handleSubmit ''   '' ''low'' ''model'' 7 (runStopped [humanMessage])
       = (runStopped [humanMessage], None)
   \<and> processedEventsTimeline (runStopped [humanMessage]) \<noteq> []
   \<and> hasFinalizeEventOccurred (runStopped [humanMessage])"
  using handleSubmit_blank_is_noop [of "''   ''" "''low''" "''model''" 7 "runStopped [humanMessage]"] trim_examples(1)
  by (simp add: runStopped_eval)

section \<open>Properties of the section renderer\<close>


lemma renderSources_null:
  "JNull \<in> set xs \<Longrightarrow> renderSources xs = Inl TypeError"
  by (induction xs) (auto simp: renderSource_def getProp_def split: sum.splits jsError.splits)






lemma showData_outside_plain_fields:
  "showData \<lparr>title = codeUnits ''Code Execution Output'',
       data = Some (JObj [(''stdout'', JObj []), (''stderr'', JStr ''boom'')]),
       sectionType = ''Coding'', isSources = False\<rparr> = Inl InvalidChild"
  "showData \<lparr>title = codeUnits ''Code Execution Output'',
       data = Some (JObj [(''stdout'', JNum 0), (''stderr'', JStr ''boom'')]),
       sectionType = ''Coding'', isSources = False\<rparr>
     = Inr [Text (JNum 0), Block ''STDERR: '' [JStr ''boom'']]"
  by (simp_all add: showData_def mount_def renderData_def field_def labelled_def)




section \<open>Properties of the mind-map fetch\<close>


lemma mmIsLoading_caught [simp]: "\<not> mmIsLoading (caught message st)"
  by (simp add: caught_def)

lemma mmError_caught [simp]:
  "mmError (caught message st)
     = Some (if message \<noteq> [] then message else ''Could not load mind map data.'')"
  by (simp add: caught_def)

lemma rawMermaid_caught [simp]: "rawMermaid (caught message st) = JStr []"
  by (simp add: caught_def)











end
